theory Spec2Isabelle
  imports Complex_Main
begin

section \<open>Python values, exceptions and indexing\<close>

text \<open>
  The figure script \<^verbatim>\<open>scripts/paper/figures.py\<close> is a sequence of array reductions on
  posterior traces and observed case counts. Exceptions are values: a function that can
  raise returns \<open>py_error + 'a\<close>, with \<open>Inl\<close> the exception. Observed case counts are
  integers, posterior draws are real numbers (the rounding of IEEE doubles is not part of
  this model; a sum of an integer and a draw is their sum as reals).
\<close>

datatype py_error = TypeError | ValueError | IndexError | OverflowError

definition bind_e :: "py_error + 'a \<Rightarrow> ('a \<Rightarrow> py_error + 'b) \<Rightarrow> py_error + 'b" where
  "bind_e r f = (case r of Inl e \<Rightarrow> Inl e | Inr x \<Rightarrow> f x)"

text \<open>A comprehension or an axis-wise reduction stops at the first exception.\<close>

fun mapM_e :: "('a \<Rightarrow> py_error + 'b) \<Rightarrow> 'a list \<Rightarrow> py_error + 'b list" where
  "mapM_e f [] = Inr []"
| "mapM_e f (x # xs) =
     (case f x of Inl e \<Rightarrow> Inl e
      | Inr y \<Rightarrow> (case mapM_e f xs of Inl e \<Rightarrow> Inl e | Inr ys \<Rightarrow> Inr (y # ys)))"

text \<open>\<^verbatim>\<open>xs[i]\<close>: a negative index counts from the end, out of range raises IndexError.\<close>

definition py_index :: "'a list \<Rightarrow> int \<Rightarrow> py_error + 'a" where
  "py_index xs i =
     (let len = int (length xs); k = (if i < 0 then i + len else i)
      in if k < 0 \<or> len \<le> k then Inl IndexError else Inr (xs ! nat k))"

text \<open>The bound of a slice \<^verbatim>\<open>xs[:n]\<close> or \<^verbatim>\<open>xs[n:]\<close>: clipped, never an exception.\<close>

definition slice_bound :: "int \<Rightarrow> nat \<Rightarrow> nat" where
  "slice_bound n len = (if n < 0 then nat (max 0 (int len + n)) else min (nat n) len)"

definition py_slice_to :: "int \<Rightarrow> 'a list \<Rightarrow> 'a list" where
  "py_slice_to n xs = take (slice_bound n (length xs)) xs"

definition py_slice_from :: "int \<Rightarrow> 'a list \<Rightarrow> 'a list" where
  "py_slice_from n xs = drop (slice_bound n (length xs)) xs"

section \<open>Array operations of numpy used by the script\<close>

text \<open>\<^verbatim>\<open>np.diff\<close> of a one-dimensional array: first differences, one element shorter.\<close>

fun np_diff :: "'a::ab_group_add list \<Rightarrow> 'a list" where
  "np_diff (x # y # ys) = (y - x) # np_diff (y # ys)"
| "np_diff [x] = []"
| "np_diff [] = []"

text \<open>\<^verbatim>\<open>np.cumsum\<close> of a one-dimensional array: the running sum, same length.\<close>

fun cumsum_from :: "'a::ab_group_add \<Rightarrow> 'a list \<Rightarrow> 'a list" where
  "cumsum_from acc [] = []"
| "cumsum_from acc (x # xs) = (acc + x) # cumsum_from (acc + x) xs"

definition np_cumsum :: "'a::ab_group_add list \<Rightarrow> 'a list" where
  "np_cumsum xs = cumsum_from 0 xs"

text \<open>\<^verbatim>\<open>np.insert(a, 0, 0)\<close> on one row: a zero before the first element.\<close>

definition np_insert0 :: "'a::ab_group_add list \<Rightarrow> 'a list" where
  "np_insert0 xs = 0 # xs"

text \<open>Adding a scalar to an array (broadcast).\<close>

definition add_scalar :: "'a::ab_group_add list \<Rightarrow> 'a \<Rightarrow> 'a list" where
  "add_scalar xs c = map (\<lambda>x. x + c) xs"

text \<open>
  A two-dimensional array indexed [sample, day] is the list of its rows. The same
  operations along axis 1 act on each row.
\<close>

type_synonym matrix = "real list list"

definition np_insert0_axis1 :: "matrix \<Rightarrow> matrix" where
  "np_insert0_axis1 m = map np_insert0 m"

definition np_cumsum_axis1 :: "matrix \<Rightarrow> matrix" where
  "np_cumsum_axis1 m = map np_cumsum m"

definition add_scalar2 :: "matrix \<Rightarrow> real \<Rightarrow> matrix" where
  "add_scalar2 m c = map (\<lambda>r. add_scalar r c) m"

text \<open>
  The transpose \<^verbatim>\<open>.T\<close>. An ndarray is rectangular, so the number of columns is the length
  of the first row (a list of rows cannot tell how many columns an array without rows has).
\<close>

definition np_T :: "matrix \<Rightarrow> matrix" where
  "np_T m = (case m of [] \<Rightarrow> []
             | r # _ \<Rightarrow> map (\<lambda>j. map (\<lambda>row. row ! j) m) [0..<length r])"



section \<open>Series alignment\<close>

text \<open>
  The block \<^verbatim>\<open>PREPARE DATA\<close> of \<^verbatim>\<open>create_figure_3_timeseries\<close>. \<open>cases_obs\<close> is the
  observed cumulative series, \<open>new_cases\<close> the trace \<^verbatim>\<open>trace["new_cases"]\<close> and
  \<open>num_days_data\<close> the module-level day count at which the trace is split.
\<close>

record fig3_data =
  new_c_obsd :: "int list"
  cum_c_obsd :: "int list"
  new_c_past :: matrix
  new_c_futu :: matrix
  cum_c_past :: matrix
  cum_c_futu :: matrix

definition prepare_data :: "int list \<Rightarrow> matrix \<Rightarrow> int \<Rightarrow> py_error + fig3_data" where
  "prepare_data cases_obs new_cases num_days_data =
     (let obsd = np_diff cases_obs;
          past = map (py_slice_to num_days_data) new_cases;
          futu = map (py_slice_from num_days_data) new_cases
      in bind_e (py_index cases_obs 0) (\<lambda>first_obs.
           let cpast = add_scalar2 (np_cumsum_axis1 (np_insert0_axis1 past)) (of_int first_obs)
           in bind_e (py_index cases_obs (- 1)) (\<lambda>last_obs.
                let cfutu = add_scalar2 (np_cumsum_axis1 (np_insert0_axis1 futu)) (of_int last_obs)
                in Inr \<lparr> new_c_obsd = obsd, cum_c_obsd = cases_obs,
                         new_c_past = past, new_c_futu = futu,
                         cum_c_past = cpast, cum_c_futu = cfutu \<rparr>)))"


text \<open>
  The cumulative fit of \<^verbatim>\<open>create_figure_0\<close>:
  \<^verbatim>\<open>np.cumsum(new_cases_past, axis=1) + cases_obs[0]\<close>, here on one row.
\<close>

definition fig0_cum_cases_row :: "'a::ab_group_add list \<Rightarrow> 'a \<Rightarrow> 'a list" where
  "fig0_cum_cases_row new_row first_obs = add_scalar (np_cumsum new_row) first_obs"

section \<open>Medians and percentiles\<close>

text \<open>
  \<^verbatim>\<open>np.median\<close> of a one-dimensional array: the mean of the middle element, or of the two
  middle elements, of the sorted data. An empty array gives \<^verbatim>\<open>nan\<close> (with a warning, no
  exception).
\<close>

datatype npfloat = Nan | Num real

definition np_median :: "real list \<Rightarrow> npfloat" where
  "np_median a =
     (let s = sort a; n = length a
      in if n = 0 then Nan
         else if odd n then Num (s ! (n div 2))
         else Num ((s ! (n div 2 - 1) + s ! (n div 2)) / 2))"

text \<open>
  \<^verbatim>\<open>np.percentile(a, q)\<close> with the default linear interpolation: the virtual index
  \<open>q / 100 * (n - 1)\<close> into the sorted data, interpolated between its two neighbours.
  \<open>q\<close> outside [0, 100] raises ValueError; an empty array raises IndexError (the take from
  an empty axis).
\<close>

definition lerp_at :: "real list \<Rightarrow> real \<Rightarrow> real" where
  "lerp_at s t =
     (let below = nat \<lfloor>t\<rfloor>;
          above = min (below + 1) (length s - 1);
          w = t - of_int \<lfloor>t\<rfloor>
      in s ! below * (1 - w) + s ! above * w)"

definition np_percentile :: "real list \<Rightarrow> real \<Rightarrow> py_error + real" where
  "np_percentile a q =
     (if q < 0 \<or> 100 < q then Inl ValueError
      else if a = [] then Inl IndexError
      else Inr (lerp_at (sort a) (q / 100 * (real (length a) - 1))))"

text \<open>
  The reductions over the sample axis (\<^verbatim>\<open>axis=0\<close> of a [sample, day] array): one value
  per day column.
\<close>

definition np_median_axis0 :: "matrix \<Rightarrow> npfloat list" where
  "np_median_axis0 m = map np_median (np_T m)"

definition np_percentile_axis0 :: "matrix \<Rightarrow> real \<Rightarrow> py_error + real list" where
  "np_percentile_axis0 m q =
     (if q < 0 \<or> 100 < q then Inl ValueError
      else if m = [] then Inl IndexError
      else mapM_e (\<lambda>col. np_percentile col q) (np_T m))"

text \<open>
  The summary of a sample matrix as the figures compute it (\<^verbatim>\<open>create_figure_0\<close>,
  \<^verbatim>\<open>create_figure_3_timeseries\<close>): the pair of percentiles, then the median. The script
  calls it with \<open>q = 2.5, 97.5\<close> and \<open>q = 12.5, 87.5\<close>.
\<close>

record summary =
  median :: "npfloat list"
  lower :: "real list"
  upper :: "real list"

definition summary_axis0 :: "matrix \<Rightarrow> real \<Rightarrow> real \<Rightarrow> py_error + summary" where
  "summary_axis0 m q_lo q_hi =
     bind_e (np_percentile_axis0 m q_lo) (\<lambda>lo.
       bind_e (np_percentile_axis0 m q_hi) (\<lambda>hi.
         Inr \<lparr> median = np_median_axis0 m, lower = lo, upper = hi \<rparr>))"

text \<open>
  The script writes the two percentiles as literals. Named by the coverage of the central
  interval between them, as the specification does, they are \<open>100 * (1 - coverage) / 2\<close>
  and \<open>100 * (1 - (1 - coverage) / 2)\<close>: coverage 0.95 is the script's (2.5, 97.5),
  coverage 0.75 its (12.5, 87.5).
\<close>

definition coverage_q_lo :: "real \<Rightarrow> real" where
  "coverage_q_lo coverage = 100 * ((1 - coverage) / 2)"

definition coverage_q_hi :: "real \<Rightarrow> real" where
  "coverage_q_hi coverage = 100 * (1 - (1 - coverage) / 2)"

definition summarize :: "matrix \<Rightarrow> real \<Rightarrow> py_error + summary" where
  "summarize m coverage = summary_axis0 m (coverage_q_lo coverage) (coverage_q_hi coverage)"

section \<open>Labels\<close>

text \<open>
  \<^verbatim>\<open>truncate_number\<close> formats with \<^verbatim>\<open>"{:.<precision>f}"\<close>: a sign, the integer digits and
  \<open>precision\<close> decimals (no point when \<open>precision\<close> is 0), the value rounded to the nearest
  such decimal, a tie to the even one. \<^verbatim>\<open>nan\<close> is printed as \<^verbatim>\<open>nan\<close>.
\<close>

definition round_half_even :: "real \<Rightarrow> int" where
  "round_half_even y =
     (let f = \<lfloor>y\<rfloor>; d = y - of_int f
      in if d < 1 / 2 then f
         else if 1 / 2 < d then f + 1
         else if even f then f else f + 1)"

definition digit_char :: "nat \<Rightarrow> char" where
  "digit_char d = ''0123456789'' ! d"

fun digits_of_nat :: "nat \<Rightarrow> string" where
  "digits_of_nat n =
     (if n < 10 then [digit_char n]
      else digits_of_nat (n div 10) @ [digit_char (n mod 10)])"

declare digits_of_nat.simps [simp del]

definition format_fixed :: "real \<Rightarrow> nat \<Rightarrow> string" where
  "format_fixed x precision =
     (let scaled = nat (round_half_even (\<bar>x\<bar> * 10 ^ precision));
          whole = digits_of_nat (scaled div 10 ^ precision);
          frac = digits_of_nat (scaled mod 10 ^ precision);
          padded = replicate (precision - length frac) (CHR ''0'') @ frac
      in (if x < 0 then ''-'' else []) @ whole
         @ (if precision = 0 then [] else ''.'' @ padded))"

definition truncate_number :: "npfloat \<Rightarrow> nat \<Rightarrow> string" where
  "truncate_number number precision =
     (case number of Nan \<Rightarrow> ''nan'' | Num x \<Rightarrow> format_fixed x precision)"

text \<open>
  \<^verbatim>\<open>print_median_CI(arr, prec)\<close>: the median is taken first, then the 2.5 and the 97.5
  percentile; an exception of either percentile leaves the function.
\<close>

definition print_median_CI :: "real list \<Rightarrow> nat \<Rightarrow> py_error + string" where
  "print_median_CI arr prec =
     (let f_trunc = (\<lambda>n. truncate_number n prec);
          med = f_trunc (np_median arr)
      in bind_e (np_percentile arr (25 / 10)) (\<lambda>p1.
           bind_e (np_percentile arr (975 / 10)) (\<lambda>p2.
             Inr (''Median: '' @ med @ [CHR 0x0A] @ ''CI: ['' @ f_trunc (Num p1)
                  @ '', '' @ f_trunc (Num p2) @ '']''))))"

section \<open>Calendar\<close>

text \<open>
  A \<^verbatim>\<open>datetime\<close> is its proleptic Gregorian ordinal (day 1 is 0001-01-01) plus the
  fraction of the day that has passed; \<^verbatim>\<open>datetime.min\<close> is day 1 and the last
  representable day is 9999-12-31, day 3652059. The ordinal of a calendar date is
  computed as the standard library does.
\<close>

type_synonym datetime = real

definition is_leap :: "int \<Rightarrow> bool" where
  "is_leap y = (y mod 4 = 0 \<and> (y mod 100 \<noteq> 0 \<or> y mod 400 = 0))"

definition days_before_year :: "int \<Rightarrow> int" where
  "days_before_year y = (y - 1) * 365 + (y - 1) div 4 - (y - 1) div 100 + (y - 1) div 400"

definition days_in_month :: "int \<Rightarrow> int \<Rightarrow> int" where
  "days_in_month y m =
     (if m = 2 \<and> is_leap y then 29
      else [31, 28, 31, 30, 31, 30, 31, 31, 30, 31, 30, 31] ! nat (m - 1))"

definition days_before_month :: "int \<Rightarrow> int \<Rightarrow> int" where
  "days_before_month y m = sum_list (map (days_in_month y) [1..m - 1])"

definition datetime_ymd :: "int \<Rightarrow> int \<Rightarrow> int \<Rightarrow> datetime" where
  "datetime_ymd y m d = of_int (days_before_year y + days_before_month y m + d)"

definition max_ordinal :: int where
  "max_ordinal = 3652059"

text \<open>
  \<^verbatim>\<open>datetime.timedelta(days=x)\<close> for a float \<open>x\<close>: rounded to whole microseconds (a tie to
  the even one), OverflowError beyond 999999999 days. The value is kept in days.
\<close>

definition us_per_day :: int where
  "us_per_day = 86400000000"

definition timedelta_days :: "real \<Rightarrow> py_error + real" where
  "timedelta_days x =
     (let us = round_half_even (x * of_int us_per_day); days = us div us_per_day
      in if days < - 999999999 \<or> 999999999 < days then Inl OverflowError
         else Inr (of_int us / of_int us_per_day))"

text \<open>\<^verbatim>\<open>datetime + timedelta\<close>: OverflowError when the date leaves years 1 to 9999.\<close>

definition datetime_add :: "datetime \<Rightarrow> real \<Rightarrow> py_error + datetime" where
  "datetime_add dt td =
     (let r = dt + td
      in if r < 1 \<or> of_int (max_ordinal + 1) \<le> r then Inl OverflowError else Inr r)"

text \<open>
  \<^verbatim>\<open>matplotlib.dates.date2num\<close>: the date as a number of days, here (as in the Matplotlib
  of the script) the ordinal with the fraction of the day.
\<close>

definition date2num :: "datetime \<Rightarrow> real" where
  "date2num dt = dt"

text \<open>
  The module-level settings. The date of the last observation comes from the case data
  (\<^verbatim>\<open>cov19.get_last_date\<close>), so it is a parameter: the ordinal of that calendar day.
\<close>

definition date_data_begin :: datetime where
  "date_data_begin = datetime_ymd 2020 3 1"

definition diff_data_sim :: int where
  "diff_data_sim = 16"


definition num_days_data :: "int \<Rightarrow> int" where
  "num_days_data date_data_end = \<lfloor>of_int date_data_end - date_data_begin\<rfloor>"


definition date_begin_sim :: datetime where
  "date_begin_sim = date_data_begin - of_int diff_data_sim"

text \<open>
  The offsets the calendar mapper can be called with: a number, a string, \<^verbatim>\<open>None\<close> or a
  sequence. \<^verbatim>\<open>float(v)\<close> returns a number unchanged, raises TypeError on \<^verbatim>\<open>None\<close> and on
  a sequence, and parses a string; the parser of the interpreter is the parameter
  \<open>str_float\<close>, \<open>None\<close> where it raises ValueError. Iterating a string yields its
  characters as strings of length one; a number and \<^verbatim>\<open>None\<close> are not iterable.
\<close>

datatype pyval = PNum real | PStr string | PNone | PList "pyval list"

fun py_float :: "(string \<Rightarrow> real option) \<Rightarrow> pyval \<Rightarrow> py_error + real" where
  "py_float str_float (PNum x) = Inr x"
| "py_float str_float (PStr s) =
     (case str_float s of None \<Rightarrow> Inl ValueError | Some x \<Rightarrow> Inr x)"
| "py_float str_float PNone = Inl TypeError"
| "py_float str_float (PList vs) = Inl TypeError"

fun py_iter :: "pyval \<Rightarrow> py_error + pyval list" where
  "py_iter (PNum x) = Inl TypeError"
| "py_iter (PStr s) = Inr (map (\<lambda>c. PStr [c]) s)"
| "py_iter PNone = Inl TypeError"
| "py_iter (PList vs) = Inr vs"

text \<open>
  \<^verbatim>\<open>conv_time_to_mpl_dates(arr)\<close>: the comprehension over \<open>arr\<close> is tried first; any
  exception in it (the bare \<^verbatim>\<open>except\<close>) makes the function treat \<open>arr\<close> as one offset,
  and an exception there leaves the function.
\<close>

datatype mpl_dates = DateNum real | DateArr "real list"

definition offset_to_date :: "(string \<Rightarrow> real option) \<Rightarrow> pyval \<Rightarrow> py_error + datetime" where
  "offset_to_date str_float v =
     bind_e (py_float str_float v) (\<lambda>x.
       bind_e (timedelta_days x) (\<lambda>td. datetime_add date_begin_sim td))"

definition conv_time_to_mpl_dates ::
    "(string \<Rightarrow> real option) \<Rightarrow> pyval \<Rightarrow> py_error + mpl_dates" where
  "conv_time_to_mpl_dates str_float arr =
     (case bind_e (py_iter arr) (mapM_e (offset_to_date str_float)) of
        Inr ds \<Rightarrow> Inr (DateArr (map date2num ds))
      | Inl _ \<Rightarrow>
          bind_e (offset_to_date str_float arr) (\<lambda>d. Inr (DateNum (date2num d))))"







section \<open>Facts about indexing, differences and running sums\<close>

lemma add_scalar_cumsum_from:
  "add_scalar (cumsum_from a xs) c = cumsum_from (a + c) xs"
  by (induction xs arbitrary: a) (simp_all add: add_scalar_def add.commute add.left_commute)

lemma cumsum_from_np_diff: "cumsum_from x (np_diff (x # xs)) = xs"
  by (induction xs arbitrary: x) simp_all


lemma py_index_first: "xs \<noteq> [] \<Longrightarrow> py_index xs 0 = Inr (hd xs)"
  by (cases xs) (simp_all add: py_index_def Let_def)

lemma py_index_last: "xs \<noteq> [] \<Longrightarrow> py_index xs (- 1) = Inr (last xs)"
  by (simp add: py_index_def Let_def last_conv_nth nat_diff_distrib')

lemma py_index_empty: "py_index [] i = Inl IndexError"
  by (simp add: py_index_def Let_def)

lemma anchored_row:
  "add_scalar (np_cumsum (np_insert0 xs)) c = c # cumsum_from c xs"
  by (simp add: np_cumsum_def np_insert0_def add_scalar_def
      add_scalar_cumsum_from [unfolded add_scalar_def])

lemma slice_to_from: "py_slice_to n r @ py_slice_from n r = r"
  by (simp add: py_slice_to_def py_slice_from_def)

lemma prepare_data_nonempty:
  assumes "cases_obs \<noteq> []"
  shows "prepare_data cases_obs new_cases n =
     Inr \<lparr> new_c_obsd = np_diff cases_obs, cum_c_obsd = cases_obs,
           new_c_past = map (py_slice_to n) new_cases,
           new_c_futu = map (py_slice_from n) new_cases,
           cum_c_past = map (\<lambda>r. of_int (hd cases_obs)
               # cumsum_from (of_int (hd cases_obs)) (py_slice_to n r)) new_cases,
           cum_c_futu = map (\<lambda>r. of_int (last cases_obs)
               # cumsum_from (of_int (last cases_obs)) (py_slice_from n r)) new_cases \<rparr>"
  by (simp add: prepare_data_def Let_def bind_e_def py_index_first [OF assms]
      py_index_last [OF assms] add_scalar2_def np_cumsum_axis1_def np_insert0_axis1_def
      anchored_row o_def)

lemma prepare_data_empty: "prepare_data [] new_cases n = Inl IndexError"
  by (simp add: prepare_data_def Let_def bind_e_def py_index_empty)

section \<open>The round trip between cumulative and new counts\<close>

text \<open>
  C5. For every non-empty cumulative sequence, the first differences (\<^verbatim>\<open>np.diff\<close>)
  followed by the running sum anchored at the first value give the sequence back: with
  the zero inserted in front as in \<^verbatim>\<open>create_figure_3_timeseries\<close> the whole sequence,
  without it as in \<^verbatim>\<open>create_figure_0\<close> the sequence after its first element. The values
  are those of any commutative group (integers, reals, machine integers that wrap).
\<close>

theorem cumulative_round_trip:
  fixes xs :: "'a::ab_group_add list"
  assumes "xs \<noteq> []"
  shows "\<exists>a. py_index xs 0 = Inr a
           \<and> add_scalar (np_cumsum (np_insert0 (np_diff xs))) a = xs
           \<and> fig0_cum_cases_row (np_diff xs) a = tl xs"
proof -
  from assms obtain x ys where xs: "xs = x # ys" by (cases xs) auto
  have "add_scalar (np_cumsum (np_insert0 (np_diff xs))) x = xs"
    by (simp add: xs anchored_row cumsum_from_np_diff)
  moreover have "fig0_cum_cases_row (np_diff xs) x = tl xs"
    by (simp add: xs fig0_cum_cases_row_def np_cumsum_def add_scalar_cumsum_from
        cumsum_from_np_diff)
  ultimately show ?thesis using py_index_first [OF assms] by (simp add: xs)
qed

theorem cumulative_round_trip_witness:
  "\<exists>a. py_index [100, 110, 125 :: int] 0 = Inr a
     \<and> add_scalar (np_cumsum (np_insert0 (np_diff [100, 110, 125]))) a = [100, 110, 125]
     \<and> fig0_cum_cases_row (np_diff [100, 110, 125]) a = tl [100, 110, 125 :: int]"
  using cumulative_round_trip [of "[100, 110, 125 :: int]"] by simp

section \<open>The cumulative view of the fit\<close>



section \<open>Lengths are not compared\<close>

text \<open>
  C3, as the code behaves at the input of the claim: with four observed counts and a day
  count of 2 the alignment returns its six series; no exception is raised.
\<close>

theorem aligner_accepts_mismatched_lengths:
  "prepare_data [100, 110, 125, 130] [[10, 15, 20], [10, 15, 20], [10, 15, 20]] 2 =
     Inr \<lparr> new_c_obsd = [10, 15, 5], cum_c_obsd = [100, 110, 125, 130],
           new_c_past = [[10, 15], [10, 15], [10, 15]],
           new_c_futu = [[20], [20], [20]],
           cum_c_past = [[100, 110, 125], [100, 110, 125], [100, 110, 125]],
           cum_c_futu = [[130, 150], [130, 150], [130, 150]] \<rparr>"
  by (simp add: prepare_data_def Let_def bind_e_def py_index_def add_scalar2_def
      np_cumsum_axis1_def np_insert0_axis1_def np_cumsum_def np_insert0_def add_scalar_def
      py_slice_to_def py_slice_from_def slice_bound_def)

text \<open>
  C3, amended. The alignment compares no lengths. It raises only when the observed
  series is empty, and then an IndexError (from \<^verbatim>\<open>cases_obs[0]\<close>); for every non-empty
  observed series, every draws matrix and every day count it returns, each row of draws
  split at the day count by slicing: the past and the future part of a row, one after the
  other, are the row.
\<close>

theorem aligner_fails_only_on_empty_observed:
  "(prepare_data cases_obs new_cases n = Inl e \<longrightarrow> cases_obs = [] \<and> e = IndexError)
   \<and> (cases_obs = [] \<longrightarrow> prepare_data cases_obs new_cases n = Inl IndexError)
   \<and> (cases_obs \<noteq> [] \<longrightarrow>
        (\<exists>d. prepare_data cases_obs new_cases n = Inr d
           \<and> length (new_c_past d) = length new_cases
           \<and> length (new_c_futu d) = length new_cases
           \<and> (\<forall>i < length new_cases. new_c_past d ! i @ new_c_futu d ! i = new_cases ! i)))"
proof (cases "cases_obs = []")
  case True
  then show ?thesis by (simp add: prepare_data_empty)
next
  case False
  then show ?thesis by (simp add: prepare_data_nonempty [OF False] slice_to_from)
qed

theorem aligner_fails_only_on_empty_observed_witness:
  "prepare_data [] [[10, 15, 20]] 2 = Inl IndexError
   \<and> (\<exists>d. prepare_data [100, 110, 125, 130] [[10, 15, 20]] 2 = Inr d
           \<and> new_c_past d ! 0 @ new_c_futu d ! 0 = [10, 15, 20])"
  using aligner_fails_only_on_empty_observed [of "[]" "[[10, 15, 20]]" 2 IndexError]
    aligner_fails_only_on_empty_observed [of "[100, 110, 125, 130]" "[[10, 15, 20]]" 2 IndexError]
  by auto



section \<open>Facts about reductions, percentiles and medians\<close>

lemma mapM_e_all_Inr:
  "(\<And>x. x \<in> set xs \<Longrightarrow> f x = Inr (g x)) \<Longrightarrow> mapM_e f xs = Inr (map g xs)"
  by (induction xs) simp_all

lemma lerp_index_bounds:
  assumes "s \<noteq> []" "0 \<le> t" "t \<le> real (length s) - 1"
  shows "nat \<lfloor>t\<rfloor> < length s" and "nat \<lfloor>t\<rfloor> \<le> min (nat \<lfloor>t\<rfloor> + 1) (length s - 1)"
proof -
  have "t \<le> of_int (int (length s) - 1)" using assms(3) by simp
  then have "\<lfloor>t\<rfloor> \<le> \<lfloor>of_int (int (length s) - 1) :: real\<rfloor>" by (rule floor_mono)
  then have "\<lfloor>t\<rfloor> \<le> int (length s) - 1" by (simp only: floor_of_int)
  moreover have "0 < length s" using assms(1) by simp
  ultimately show "nat \<lfloor>t\<rfloor> < length s" by linarith
  then show "nat \<lfloor>t\<rfloor> \<le> min (nat \<lfloor>t\<rfloor> + 1) (length s - 1)" by simp
qed

lemma lerp_at_bounds:
  assumes "sorted s" "s \<noteq> []" "0 \<le> t" "t \<le> real (length s) - 1"
  shows "s ! nat \<lfloor>t\<rfloor> \<le> lerp_at s t"
    and "lerp_at s t \<le> s ! min (nat \<lfloor>t\<rfloor> + 1) (length s - 1)"
proof -
  let ?lo = "nat \<lfloor>t\<rfloor>"
  let ?hi = "min (?lo + 1) (length s - 1)"
  let ?w = "t - of_int \<lfloor>t\<rfloor>"
  have hi: "?hi < length s" using assms(2) by (auto simp: min_def)
  have le: "s ! ?lo \<le> s ! ?hi"
    using sorted_nth_mono [OF assms(1) lerp_index_bounds(2) [OF assms(2-4)] hi] .
  have w: "0 \<le> ?w" "?w \<le> 1" by linarith+
  have eq: "lerp_at s t = s ! ?lo + ?w * (s ! ?hi - s ! ?lo)"
    by (simp add: lerp_at_def Let_def algebra_simps)
  have eq2: "lerp_at s t = s ! ?hi - (1 - ?w) * (s ! ?hi - s ! ?lo)"
    by (simp add: lerp_at_def Let_def algebra_simps)
  have "0 \<le> ?w * (s ! ?hi - s ! ?lo)" using w le by simp
  then show "s ! ?lo \<le> lerp_at s t" using eq by linarith
  have "0 \<le> (1 - ?w) * (s ! ?hi - s ! ?lo)" using w le by simp
  then show "lerp_at s t \<le> s ! ?hi" using eq2 by linarith
qed

lemma lerp_at_mono:
  assumes "sorted s" "s \<noteq> []" "0 \<le> t" "t \<le> u" "u \<le> real (length s) - 1"
  shows "lerp_at s t \<le> lerp_at s u"
proof (cases "\<lfloor>t\<rfloor> = \<lfloor>u\<rfloor>")
  case True
  let ?lo = "nat \<lfloor>t\<rfloor>"
  let ?hi = "min (?lo + 1) (length s - 1)"
  have t: "t \<le> real (length s) - 1" using assms by linarith
  have hi: "?hi < length s" using assms(2) by (auto simp: min_def)
  have le: "s ! ?lo \<le> s ! ?hi"
    using sorted_nth_mono [OF assms(1) lerp_index_bounds(2) [OF assms(2,3) t] hi] .
  have "lerp_at s u - lerp_at s t = (u - t) * (s ! ?hi - s ! ?lo)"
    by (simp add: lerp_at_def Let_def True [symmetric] algebra_simps)
  moreover have "0 \<le> (u - t) * (s ! ?hi - s ! ?lo)" using assms(4) le by simp
  ultimately show ?thesis by linarith
next
  case False
  have t: "t \<le> real (length s) - 1" and u: "0 \<le> u" using assms by linarith+
  have "\<lfloor>t\<rfloor> \<le> \<lfloor>u\<rfloor>" using assms(4) by (rule floor_mono)
  with False have lt: "\<lfloor>t\<rfloor> < \<lfloor>u\<rfloor>" by simp
  have "0 \<le> \<lfloor>t\<rfloor>" using assms(3) by simp
  with lt have idx: "min (nat \<lfloor>t\<rfloor> + 1) (length s - 1) \<le> nat \<lfloor>u\<rfloor>" by linarith
  have "lerp_at s t \<le> s ! min (nat \<lfloor>t\<rfloor> + 1) (length s - 1)"
    using lerp_at_bounds(2) [OF assms(1,2,3) t] .
  also have "\<dots> \<le> s ! nat \<lfloor>u\<rfloor>"
    using sorted_nth_mono [OF assms(1) idx lerp_index_bounds(1) [OF assms(2) u assms(5)]] .
  also have "\<dots> \<le> lerp_at s u"
    using lerp_at_bounds(1) [OF assms(1,2) u assms(5)] .
  finally show ?thesis .
qed

lemma np_median_lerp:
  assumes "a \<noteq> []"
  shows "np_median a = Num (lerp_at (sort a) ((real (length a) - 1) / 2))"
proof (cases "odd (length a)")
  case True
  then obtain k where k: "length a = 2 * k + 1" by (auto elim: oddE)
  have "(real (length a) - 1) / 2 = real k" by (simp add: k)
  then show ?thesis using True by (simp add: np_median_def lerp_at_def Let_def k)
next
  case False
  then obtain k where k: "length a = 2 * k" by (auto elim: evenE)
  have kpos: "0 < k" using assms k by (cases k) auto
  then obtain k' where k': "k = Suc k'" by (cases k) auto
  have t: "(real (length a) - 1) / 2 = real k' + 1 / 2" by (simp add: k k')
  have fl: "\<lfloor>real k' + 1 / 2\<rfloor> = int k'" by linarith
  show ?thesis using False assms
    by (simp add: np_median_def lerp_at_def Let_def t fl) (simp add: k k' min_def field_simps)
qed

lemma sort_nonempty: "a \<noteq> [] \<Longrightarrow> sort a \<noteq> []"
  by (metis length_0_conv length_sort)

lemma np_percentile_lerp:
  assumes "a \<noteq> []" "0 \<le> q" "q \<le> 100"
  shows "np_percentile a q = Inr (lerp_at (sort a) (q / 100 * (real (length a) - 1)))"
  using assms by (simp add: np_percentile_def)

lemma percentile_le_median:
  assumes "a \<noteq> []" "0 \<le> q" "q \<le> 50"
  shows "\<exists>p med. np_percentile a q = Inr p \<and> np_median a = Num med \<and> p \<le> med"
proof -
  let ?n = "real (length a) - 1"
  have n: "0 \<le> ?n" using assms(1) by (cases a) simp_all
  have "q / 100 * ?n \<le> 1 / 2 * ?n"
    using assms(3) n by (intro mult_right_mono) simp_all
  then have le: "q / 100 * ?n \<le> ?n / 2" by simp
  have "lerp_at (sort a) (q / 100 * ?n) \<le> lerp_at (sort a) (?n / 2)"
    using sort_nonempty [OF assms(1)] assms(2) n le by (intro lerp_at_mono) simp_all
  then show ?thesis
    using assms by (simp add: np_percentile_lerp np_median_lerp)
qed

lemma median_le_percentile:
  assumes "a \<noteq> []" "50 \<le> q" "q \<le> 100"
  shows "\<exists>p med. np_percentile a q = Inr p \<and> np_median a = Num med \<and> med \<le> p"
proof -
  let ?n = "real (length a) - 1"
  have n: "0 \<le> ?n" using assms(1) by (cases a) simp_all
  have "1 / 2 * ?n \<le> q / 100 * ?n"
    using assms(2) n by (intro mult_right_mono) simp_all
  then have le: "?n / 2 \<le> q / 100 * ?n" by simp
  have "q / 100 * ?n \<le> 1 * ?n"
    using assms(3) n by (intro mult_right_mono) simp_all
  then have le2: "q / 100 * ?n \<le> ?n" by simp
  have "lerp_at (sort a) (?n / 2) \<le> lerp_at (sort a) (q / 100 * ?n)"
    using sort_nonempty [OF assms(1)] n le le2 by (intro lerp_at_mono) simp_all
  then show ?thesis
    using assms by (simp add: np_percentile_lerp np_median_lerp)
qed

lemma coverage_q_bounds:
  assumes "0 < c" "c < 1"
  shows "0 \<le> coverage_q_lo c" "coverage_q_lo c \<le> 50"
    "50 \<le> coverage_q_hi c" "coverage_q_hi c \<le> 100"
  using assms by (simp_all add: coverage_q_lo_def coverage_q_hi_def)

lemma summarize_script_levels:
  "summarize m (95 / 100) = summary_axis0 m (25 / 10) (975 / 10)"
  "summarize m (75 / 100) = summary_axis0 m (125 / 10) (875 / 10)"
  by (simp_all add: summarize_def coverage_q_lo_def coverage_q_hi_def)

lemma np_T_columns:
  assumes "m \<noteq> []" "col \<in> set (np_T m)"
  shows "col \<noteq> []"
  using assms by (cases m) (auto simp: np_T_def)

lemma np_T_nth:
  assumes "j < length (np_T m)"
  shows "np_T m ! j = map (\<lambda>row. row ! j) m"
  using assms by (cases m) (auto simp: np_T_def)

lemma np_percentile_axis0_lerp:
  assumes "m \<noteq> []" "0 \<le> q" "q \<le> 100"
  shows "np_percentile_axis0 m q =
     Inr (map (\<lambda>col. lerp_at (sort col) (q / 100 * (real (length col) - 1))) (np_T m))"
proof -
  have "mapM_e (\<lambda>col. np_percentile col q) (np_T m) =
     Inr (map (\<lambda>col. lerp_at (sort col) (q / 100 * (real (length col) - 1))) (np_T m))"
    using assms by (intro mapM_e_all_Inr np_percentile_lerp np_T_columns)
  then show ?thesis using assms by (simp add: np_percentile_axis0_def)
qed

lemma summarize_value:
  assumes "0 < c" "c < 1" "m \<noteq> []"
  shows "summarize m c =
     Inr \<lparr> median = map np_median (np_T m),
           lower = map (\<lambda>col. lerp_at (sort col) (coverage_q_lo c / 100 * (real (length col) - 1))) (np_T m),
           upper = map (\<lambda>col. lerp_at (sort col) (coverage_q_hi c / 100 * (real (length col) - 1))) (np_T m) \<rparr>"
  using coverage_q_bounds [OF assms(1,2)] assms(3)
  by (simp add: summarize_def summary_axis0_def bind_e_def np_percentile_axis0_lerp
      np_median_axis0_def)

section \<open>The summary of a sample matrix\<close>

text \<open>
  C2. For every coverage strictly between 0 and 1 and every sample matrix with at least
  one sample row, the summary exists and, for every day column, its lower bound (the
  percentile \<open>100 * (1 - coverage) / 2\<close> over the samples) is at most the median, which is
  the 50th percentile of the column, and the median is at most the upper bound (the
  percentile \<open>100 * (1 - (1 - coverage) / 2)\<close>). The values are real numbers.
\<close>

theorem summary_interval_ordered:
  assumes "0 < coverage" "coverage < 1" "m \<noteq> []"
  shows "\<exists>s. summarize m coverage = Inr s
           \<and> length (median s) = length (np_T m)
           \<and> length (lower s) = length (np_T m)
           \<and> length (upper s) = length (np_T m)
           \<and> (\<forall>j < length (np_T m).
                \<exists>med. median s ! j = Num med \<and> np_percentile (np_T m ! j) 50 = Inr med
                   \<and> lower s ! j \<le> med \<and> med \<le> upper s ! j)"
proof -
  have "\<exists>med. np_median (np_T m ! j) = Num med \<and> np_percentile (np_T m ! j) 50 = Inr med
          \<and> lerp_at (sort (np_T m ! j))
               (coverage_q_lo coverage / 100 * (real (length (np_T m ! j)) - 1)) \<le> med
          \<and> med \<le> lerp_at (sort (np_T m ! j))
               (coverage_q_hi coverage / 100 * (real (length (np_T m ! j)) - 1))"
    if j: "j < length (np_T m)" for j
  proof -
    have col: "np_T m ! j \<noteq> []" using np_T_columns [OF assms(3)] j by simp
    note b = coverage_q_bounds [OF assms(1,2)]
    from percentile_le_median [OF col b(1,2)] median_le_percentile [OF col b(3,4)]
    show ?thesis using col b by (auto simp: np_percentile_lerp np_median_lerp)
  qed
  then show ?thesis by (simp add: summarize_value [OF assms])
qed

theorem summary_interval_ordered_witness:
  "(0::real) < 95 / 100 \<and> (95 / 100 :: real) < 1
   \<and> [[10, 15, 20], [11, 15, 20], [12, 15, 2]] \<noteq> ([] :: matrix)
   \<and> (\<exists>s. summarize [[10, 15, 20], [11, 15, 20], [12, 15, 2]] (95 / 100) = Inr s
      \<and> length (median s) = length (np_T [[10, 15, 20], [11, 15, 20], [12, 15, 2]])
      \<and> length (lower s) = length (np_T [[10, 15, 20], [11, 15, 20], [12, 15, 2]])
      \<and> length (upper s) = length (np_T [[10, 15, 20], [11, 15, 20], [12, 15, 2]])
      \<and> (\<forall>j < length (np_T [[10, 15, 20], [11, 15, 20], [12, 15, 2]]).
            \<exists>med. median s ! j = Num med
               \<and> np_percentile (np_T [[10, 15, 20], [11, 15, 20], [12, 15, 2]] ! j) 50 = Inr med
               \<and> lower s ! j \<le> med \<and> med \<le> upper s ! j))"
  using summary_interval_ordered [of "95 / 100" "[[10, 15, 20], [11, 15, 20], [12, 15, 2]]"]
  by simp

lemma sort_nth_const:
  assumes "\<forall>x \<in> set a. x = v" "i < length a"
  shows "sort a ! i = v"
proof -
  have "sort a ! i \<in> set (sort a)" using assms(2) by (intro nth_mem) simp
  then show ?thesis using assms(1) by simp
qed

lemma lerp_at_const:
  assumes "\<forall>x \<in> set a. x = v" "a \<noteq> []" "0 \<le> t" "t \<le> real (length a) - 1"
  shows "lerp_at (sort a) t = v"
proof -
  have lo: "nat \<lfloor>t\<rfloor> < length a"
    using lerp_index_bounds(1) [of "sort a" t] sort_nonempty [OF assms(2)] assms(3,4) by simp
  have hi: "min (nat \<lfloor>t\<rfloor> + 1) (length a - 1) < length a"
    using assms(2) by (auto simp: min_def)
  have below: "sort a ! nat \<lfloor>t\<rfloor> = v"
    by (rule sort_nth_const [OF assms(1) lo])
  have above: "sort a ! min (nat \<lfloor>t\<rfloor> + 1) (length (sort a) - 1) = v"
    using sort_nth_const [OF assms(1) hi] by simp
  show ?thesis
    unfolding lerp_at_def Let_def below above by (simp add: algebra_simps)
qed

lemma np_percentile_const:
  assumes "\<forall>x \<in> set a. x = v" "a \<noteq> []" "0 \<le> q" "q \<le> 100"
  shows "np_percentile a q = Inr v"
proof -
  let ?n = "real (length a) - 1"
  have n: "0 \<le> ?n" using assms(2) by (cases a) simp_all
  have "q / 100 * ?n \<le> 1 * ?n" using assms(4) n by (intro mult_right_mono) simp_all
  then have "q / 100 * ?n \<le> ?n" by simp
  moreover have "0 \<le> q / 100 * ?n" using assms(3) n by simp
  ultimately show ?thesis
    using assms by (simp add: np_percentile_lerp lerp_at_const)
qed

lemma np_median_const:
  assumes "\<forall>x \<in> set a. x = v" "a \<noteq> []"
  shows "np_median a = Num v"
proof -
  have "0 \<le> (real (length a) - 1) / 2" "(real (length a) - 1) / 2 \<le> real (length a) - 1"
    using assms(2) by (cases a; simp)+
  then show ?thesis using assms by (simp add: np_median_lerp lerp_at_const)
qed

text \<open>
  C7. For every sample matrix with at least one sample row and every day column whose
  sample values all equal one value \<open>v\<close> (every column of a constant matrix, and every
  column of a matrix with a single row), the summary of that day is
  median = lower = upper = \<open>v\<close>, at every coverage strictly between 0 and 1.
\<close>

theorem constant_column_summary:
  assumes "0 < coverage" "coverage < 1" "m \<noteq> []" "j < length (np_T m)"
    and "\<forall>row \<in> set m. row ! j = v"
  shows "\<exists>s. summarize m coverage = Inr s
           \<and> median s ! j = Num v \<and> lower s ! j = v \<and> upper s ! j = v"
proof -
  let ?col = "np_T m ! j"
  have col: "?col \<noteq> []" using np_T_columns [OF assms(3)] assms(4) by simp
  have const: "\<forall>x \<in> set ?col. x = v"
    using assms(5) by (auto simp: np_T_nth [OF assms(4)])
  note b = coverage_q_bounds [OF assms(1,2)]
  have "np_percentile ?col (coverage_q_lo coverage) = Inr v"
    using np_percentile_const [OF const col b(1)] b(2) by simp
  moreover have "np_percentile ?col (coverage_q_hi coverage) = Inr v"
    using np_percentile_const [OF const col _ b(4)] b(3) by simp
  moreover have "np_median ?col = Num v"
    using np_median_const [OF const col] .
  ultimately show ?thesis
    using assms(4) col b by (simp add: summarize_value [OF assms(1-3)] np_percentile_lerp)
qed

theorem constant_column_summary_witness:
  "\<exists>s. summarize [[7, 3, 9]] (95 / 100) = Inr s
      \<and> median s ! 1 = Num 3 \<and> lower s ! 1 = 3 \<and> upper s ! 1 = 3"
proof -
  have t: "np_T [[7, 3, 9]] = [[7], [3], [9]]"
    by (simp add: np_T_def upt_rec)
  show ?thesis
    using constant_column_summary [of "95 / 100" "[[7, 3, 9]]" 1 3] by (simp add: t)
qed

section \<open>The label of a median and its interval\<close>

text \<open>
  C6. \<^verbatim>\<open>print_median_CI([5.0, 5.0, 5.0], prec=2)\<close> is the label of two lines
  \<^verbatim>\<open>Median: 5.00\<close> and \<^verbatim>\<open>CI: [5.00, 5.00]\<close>, all three values with two decimals.
\<close>

theorem format_median_ci_fives:
  "print_median_CI [5, 5, 5] 2 = Inr (''Median: 5.00'' @ [CHR 0x0A] @ ''CI: [5.00, 5.00]'')"
  by (simp add: print_median_CI_def np_median_def np_percentile_def lerp_at_def bind_e_def
      truncate_number_def format_fixed_def round_half_even_def digits_of_nat.simps
      digit_char_def Let_def)






section \<open>Facts about dates and offsets\<close>

lemma mapM_e_fails:
  "x \<in> set xs \<Longrightarrow> isl (f x) \<Longrightarrow> isl (mapM_e f xs)"
  by (induction xs) (auto split: sum.splits)

lemma date_begin_sim_value: "date_begin_sim = 737469"
  by (simp add: date_begin_sim_def date_data_begin_def diff_data_sim_def datetime_ymd_def
      days_before_year_def days_before_month_def days_in_month_def is_leap_def upto.simps)

lemma round_half_even_of_int: "round_half_even (of_int k) = k"
  by (simp add: round_half_even_def Let_def)

lemma timedelta_days_of_int:
  "timedelta_days (of_int n) =
     (if n < - 999999999 \<or> 999999999 < n then Inl OverflowError else Inr (of_int n))"
proof -
  have "round_half_even (of_int n * of_int us_per_day) = n * us_per_day"
    using round_half_even_of_int [of "n * us_per_day"] by simp
  then show ?thesis
    by (simp add: timedelta_days_def Let_def) (simp add: us_per_day_def)
qed

lemma offset_to_date_int:
  "offset_to_date str_float (PNum (of_int n)) =
     (if 1 \<le> date_begin_sim + of_int n \<and> date_begin_sim + of_int n \<le> of_int max_ordinal
      then Inr (date_begin_sim + of_int n) else Inl OverflowError)"
  by (auto simp: offset_to_date_def bind_e_def timedelta_days_of_int datetime_add_def Let_def
      date_begin_sim_value max_ordinal_def)

lemma conv_scalar:
  "conv_time_to_mpl_dates str_float (PNum x) =
     bind_e (offset_to_date str_float (PNum x)) (\<lambda>d. Inr (DateNum (date2num d)))"
  by (simp add: conv_time_to_mpl_dates_def bind_e_def)

section \<open>The calendar mapper\<close>

text \<open>
  C4, amended. Offset 0 is mapped to the date number of the reference date
  \<^verbatim>\<open>date_begin_sim\<close>. For every integer \<open>n\<close>, positive or negative, whose date
  \<open>date_begin_sim + n\<close> days lies in the range of \<^verbatim>\<open>datetime\<close> (day 1 to day 3652059, years 1
  to 9999), the date number of \<open>n\<close> minus the date number of 0 is \<open>n\<close>; for every other
  integer the mapper raises OverflowError.
\<close>

theorem calendar_mapper_affine:
  "conv_time_to_mpl_dates str_float (PNum 0) = Inr (DateNum (date2num date_begin_sim))
   \<and> (1 \<le> date_begin_sim + of_int n \<and> date_begin_sim + of_int n \<le> of_int max_ordinal \<longrightarrow>
        (\<exists>d0 dn. conv_time_to_mpl_dates str_float (PNum 0) = Inr (DateNum d0)
           \<and> conv_time_to_mpl_dates str_float (PNum (of_int n)) = Inr (DateNum dn)
           \<and> dn - d0 = of_int n))
   \<and> (\<not> (1 \<le> date_begin_sim + of_int n \<and> date_begin_sim + of_int n \<le> of_int max_ordinal) \<longrightarrow>
        conv_time_to_mpl_dates str_float (PNum (of_int n)) = Inl OverflowError)"
proof -
  have zero: "conv_time_to_mpl_dates str_float (PNum 0) = Inr (DateNum (date2num date_begin_sim))"
    using offset_to_date_int [of str_float 0]
    by (simp add: conv_scalar bind_e_def date_begin_sim_value max_ordinal_def)
  show ?thesis
    unfolding zero by (simp add: conv_scalar offset_to_date_int bind_e_def date2num_def)
qed

theorem calendar_mapper_affine_witness:
  "conv_time_to_mpl_dates (\<lambda>s. None) (PNum 0) = Inr (DateNum 737469)
   \<and> conv_time_to_mpl_dates (\<lambda>s. None) (PNum (- 5)) = Inr (DateNum 737464)
   \<and> conv_time_to_mpl_dates (\<lambda>s. None) (PNum (- 800000)) = Inl OverflowError"
  using calendar_mapper_affine [of "\<lambda>s. None" "- 5"]
    calendar_mapper_affine [of "\<lambda>s. None" "- 800000"]
  by (simp add: date_begin_sim_value max_ordinal_def date2num_def)

text \<open>
  C4, as the code behaves outside the range of \<^verbatim>\<open>datetime\<close>: offset 3000000 (a date in
  the year 10233) raises OverflowError, so there is no date number whose difference to
  that of offset 0 could be 3000000.
\<close>

theorem calendar_mapper_overflow:
  "conv_time_to_mpl_dates (\<lambda>s. None) (PNum 3000000) = Inl OverflowError"
  by (simp add: conv_time_to_mpl_dates_def bind_e_def offset_to_date_def timedelta_days_def
      datetime_add_def round_half_even_def us_per_day_def max_ordinal_def Let_def
      date_begin_sim_value)

text \<open>
  C8, as the code behaves on strings, which are neither numbers nor sequences of numbers.
  On the empty string the comprehension runs over no character, nothing is converted, and
  the mapper returns an empty array of date numbers instead of raising, whatever the
  string parser of \<^verbatim>\<open>float\<close> accepts. On the string \<^verbatim>\<open>"12"\<close> the comprehension converts
  the characters \<^verbatim>\<open>"1"\<close> and \<^verbatim>\<open>"2"\<close> (the only strings the parser is asked about, read as
  \<^verbatim>\<open>float\<close> reads them) and the mapper returns the date numbers of the offsets 1 and 2.
\<close>

theorem calendar_mapper_accepts_strings:
  "conv_time_to_mpl_dates (\<lambda>s. None) (PStr []) = Inr (DateArr [])
   \<and> conv_time_to_mpl_dates
         (\<lambda>s. if s = ''1'' then Some 1 else if s = ''2'' then Some 2 else None) (PStr ''12'')
       = Inr (DateArr [737470, 737471])"
  by (simp add: conv_time_to_mpl_dates_def bind_e_def offset_to_date_def timedelta_days_def
      datetime_add_def round_half_even_def us_per_day_def max_ordinal_def Let_def
      date_begin_sim_value date2num_def)

lemma py_float_errors: "py_float str_float v = Inl e \<Longrightarrow> e = TypeError \<or> e = ValueError"
  by (cases v) (auto split: option.splits)

text \<open>
  C8, amended. The mapper raises whenever \<^verbatim>\<open>float\<close> rejects the offset itself and the
  offset is either not iterable or has an element that \<^verbatim>\<open>float\<close> rejects; the exception
  is the one \<^verbatim>\<open>float\<close> raises on the offset, a TypeError or a ValueError. This covers
  \<^verbatim>\<open>None\<close>, a sequence with a \<^verbatim>\<open>None\<close> or a nested sequence in it, and a non-empty
  string that is not a numeral.
\<close>

theorem calendar_mapper_rejects_unconvertible:
  assumes "py_float str_float v = Inl e"
    and "py_iter v = Inl e'
         \<or> (\<exists>items. py_iter v = Inr items \<and> (\<exists>i \<in> set items. isl (py_float str_float i)))"
  shows "conv_time_to_mpl_dates str_float v = Inl e \<and> (e = TypeError \<or> e = ValueError)"
proof -
  have "isl (bind_e (py_iter v) (mapM_e (offset_to_date str_float)))"
  proof (cases "py_iter v")
    case (Inl a)
    then show ?thesis by (simp add: bind_e_def)
  next
    case (Inr items)
    with assms(2) obtain i where i: "i \<in> set items" "isl (py_float str_float i)" by auto
    then have "isl (offset_to_date str_float i)"
      by (auto simp: offset_to_date_def bind_e_def split: sum.splits)
    with i(1) have "isl (mapM_e (offset_to_date str_float) items)"
      by (rule mapM_e_fails)
    then show ?thesis by (simp add: Inr bind_e_def)
  qed
  then have "conv_time_to_mpl_dates str_float v = Inl e"
    using assms(1)
    by (auto simp: conv_time_to_mpl_dates_def offset_to_date_def bind_e_def split: sum.splits)
  then show ?thesis using py_float_errors [OF assms(1)] by simp
qed

theorem calendar_mapper_rejects_unconvertible_witness:
  "conv_time_to_mpl_dates (\<lambda>s. None) PNone = Inl TypeError
   \<and> conv_time_to_mpl_dates (\<lambda>s. None) (PStr ''abc'') = Inl ValueError
   \<and> conv_time_to_mpl_dates (\<lambda>s. None) (PList [PNum 1, PNone]) = Inl TypeError"
  using calendar_mapper_rejects_unconvertible [of "\<lambda>s. None" PNone TypeError TypeError]
    calendar_mapper_rejects_unconvertible [of "\<lambda>s. None" "PStr ''abc''" ValueError TypeError]
    calendar_mapper_rejects_unconvertible [of "\<lambda>s. None" "PList [PNum 1, PNone]" TypeError TypeError]
  by simp

section \<open>The forecast is anchored at the last observation\<close>











end
